theory Spec2Isabelle
  imports Main
begin

section \<open>Word-velocity pipeline of \<open>app.py\<close>\<close>

text \<open>
  The development embeds the two request handlers of \<open>app.py\<close>, \<open>collect\<close> and
  \<open>dashboard\<close>, together with the library behaviour they rest on: the JSON value
  returned by the feed, Python's \<open>str\<close> methods, \<open>collections.Counter\<close>, and a
  PostgreSQL connection as \<open>psycopg2\<close> presents it (one implicit transaction per
  connection, published by \<open>commit\<close>).
\<close>

subsection \<open>Python strings\<close>

text \<open>
  A Python \<open>str\<close> is a sequence of Unicode code points, and \<open>len\<close> counts them. The
  literals of the source are ASCII; \<open>lit\<close> gives their code points.
\<close>

type_synonym codepoint = nat

type_synonym str = "codepoint list"

definition lit :: "string \<Rightarrow> str" where
  "lit s = map of_char s"

text \<open>
  What \<open>str.isalpha()\<close> and \<open>str.lower()\<close> do is laid down by the Unicode character
  database of the interpreter, which is no part of the repository: it is a parameter
  of everything that reads text. \<open>is_alphabetic\<close> holds of the letters (general
  categories Lu, Ll, Lt, Lm, Lo), \<open>is_lowercase\<close> of the lower-case characters, and
  \<open>str_lower\<close> is \<open>str.lower()\<close>, a function of the whole string (it may change the
  length, and its result for a sigma depends on the neighbours).
\<close>

record unicode =
  is_alphabetic :: "codepoint \<Rightarrow> bool"
  is_lowercase :: "codepoint \<Rightarrow> bool"
  str_lower :: "str \<Rightarrow> str"

text \<open>\<open>str.isalpha()\<close>: at least one character, and all of them alphabetic.\<close>

definition isalpha :: "unicode \<Rightarrow> str \<Rightarrow> bool" where
  "isalpha ucd w = (w \<noteq> [] \<and> list_all (is_alphabetic ucd) w)"

text \<open>\<open>str.lower()\<close>.\<close>

definition lower :: "unicode \<Rightarrow> str \<Rightarrow> str" where
  "lower ucd s = str_lower ucd s"

text \<open>\<open>sep.join(xs)\<close>.\<close>

fun join :: "str \<Rightarrow> str list \<Rightarrow> str" where
  "join sep [] = []"
| "join sep [x] = x"
| "join sep (x # y # ys) = x @ sep @ join sep (y # ys)"

subsection \<open>Tokenizer and filter\<close>

definition STOPWORDS :: "str set" where
  "STOPWORDS = set (map lit [''the'', ''to'', ''of'', ''and'', ''a'', ''in'', ''is'', ''for'',
     ''on'', ''with'', ''it'', ''this'', ''that'', ''are'', ''be'', ''at'', ''as'', ''from'',
     ''or'', ''by'', ''an'', ''we'', ''show'', ''hn'', ''ask'', ''new'', ''how'', ''why'',
     ''what'', ''who'', ''your'', ''my'', ''i'', ''you''])"

text \<open>The condition of the list comprehension of \<open>collect\<close>:
  \<open>w.isalpha() and len(w) > 2 and w not in STOPWORDS\<close>.\<close>

definition keep_word :: "unicode \<Rightarrow> str \<Rightarrow> bool" where
  "keep_word ucd w = (isalpha ucd w \<and> length w > 2 \<and> w \<notin> STOPWORDS)"

text \<open>
  Step 2 of \<open>collect\<close>, from the titles to the filtered words. \<open>TextBlob(...).words\<close>
  belongs to a library outside the repository; it is the parameter \<open>tokenize\<close>.
\<close>

definition extract_words :: "unicode \<Rightarrow> (str \<Rightarrow> str list) \<Rightarrow> str list \<Rightarrow> str list" where
  "extract_words ucd tokenize titles =
     (let all_text = join (lit '' '') titles;
          blob_words = tokenize (lower ucd all_text)
      in filter (keep_word ucd) blob_words)"

subsection \<open>Data for concrete runs\<close>

text \<open>
  The ASCII part of the Unicode data: the letters \<open>A\<close> to \<open>Z\<close> and \<open>a\<close> to \<open>z\<close>, the
  digits, and the lower-case mapping, which adds 32 to an upper-case letter.
\<close>

definition ascii_upper :: "codepoint \<Rightarrow> bool" where
  "ascii_upper c = (65 \<le> c \<and> c \<le> 90)"

definition ascii_lowercase :: "codepoint \<Rightarrow> bool" where
  "ascii_lowercase c = (97 \<le> c \<and> c \<le> 122)"

definition ascii_digit :: "codepoint \<Rightarrow> bool" where
  "ascii_digit c = (48 \<le> c \<and> c \<le> 57)"

definition ascii_lower :: "codepoint \<Rightarrow> codepoint" where
  "ascii_lower c = (if ascii_upper c then c + 32 else c)"

text \<open>
  An excerpt of the Unicode data, for runs on concrete titles: ASCII, and the three
  letters U+2115, U+211D and U+2124 (double-struck capital N, R and Z), which are
  letters of category Lu, are not lower case and have no lower-case mapping. Code
  points outside the excerpt are taken as no letters; the runs below use none.
\<close>

definition unicode_excerpt :: unicode where
  "unicode_excerpt =
     \<lparr>is_alphabetic = (\<lambda>c. ascii_upper c \<or> ascii_lowercase c \<or> c = 8469 \<or> c = 8477 \<or> c = 8484),
      is_lowercase = ascii_lowercase,
      str_lower = map ascii_lower\<rparr>"

text \<open>
  A plain tokenizer for concrete runs: the maximal runs of letters and digits of the
  text. On titles made of words, spaces and colons it yields what \<open>TextBlob\<close> yields.
\<close>

fun runs :: "unicode \<Rightarrow> str \<Rightarrow> str \<Rightarrow> str list" where
  "runs ucd acc [] = (if acc = [] then [] else [rev acc])"
| "runs ucd acc (c # cs) =
     (if is_alphabetic ucd c \<or> ascii_digit c then runs ucd (c # acc) cs
      else (if acc = [] then [] else [rev acc]) @ runs ucd [] cs)"

definition simple_words :: "unicode \<Rightarrow> str \<Rightarrow> str list" where
  "simple_words ucd s = runs ucd [] s"

subsection \<open>\<open>collections.Counter\<close>\<close>

text \<open>
  A \<open>Counter\<close> is a dictionary, and a dictionary keeps its keys in the order of their
  first insertion: an association list in first-seen order.
\<close>

type_synonym counter = "(str \<times> int) list"

fun add_count :: "str \<Rightarrow> int \<Rightarrow> counter \<Rightarrow> counter" where
  "add_count w c [] = [(w, c)]"
| "add_count w c ((v, t) # gs) =
     (if w = v then (v, t + c) # gs else (v, t) # add_count w c gs)"

fun tally :: "counter \<Rightarrow> (str \<times> int) list \<Rightarrow> counter" where
  "tally acc [] = acc"
| "tally acc ((w, c) # xs) = tally (add_count w c acc) xs"

text \<open>\<open>Counter(words)\<close>: every occurrence adds one to its word.\<close>

definition Counter :: "str list \<Rightarrow> counter" where
  "Counter ws = tally [] (map (\<lambda>w. (w, 1)) ws)"

text \<open>
  \<open>sorted(items, key=..., reverse=True)\<close>: a stable sort that keeps equal keys in
  their original order; CPython reverses, sorts ascending, and reverses again.
\<close>

definition sorted_reverse :: "('a \<Rightarrow> int) \<Rightarrow> 'a list \<Rightarrow> 'a list" where
  "sorted_reverse key xs = rev (sort_key key (rev xs))"

text \<open>
  \<open>Counter.most_common(n)\<close> is \<open>heapq.nlargest(n, items, key=itemgetter(1))\<close>, which
  is \<open>sorted(items, key=itemgetter(1), reverse=True)[:n]\<close>.
\<close>

definition most_common :: "nat \<Rightarrow> counter \<Rightarrow> (str \<times> int) list" where
  "most_common n c = take n (sorted_reverse snd c)"

subsection \<open>The feed's reply\<close>

text \<open>
  A JSON value as \<open>response.json()\<close> returns it: an object is a dictionary, given by
  its items with distinct keys. Numbers are kept as integers; no step reads one.
\<close>

datatype json =
    JNull
  | JBool bool
  | JNum int
  | JStr str
  | JArr "json list"
  | JObj "(str \<times> json) list"

text \<open>The exceptions the handlers meet, by class.\<close>

datatype exn =
    ConnectionError
  | JSONDecodeError
  | AttributeError
  | TypeError
  | OperationalError
  | ProgrammingError

text \<open>
  What the feed does on one call: no reply at all (the network fails), or a reply with
  a status code and a body, where the body is \<open>None\<close> when it is not JSON.
\<close>

datatype reply = No_reply | Reply nat "json option"

text \<open>\<open>requests.get(HN_API_URL)\<close> raises when there is no reply. It does not look at
  the status code.\<close>

definition requests_get :: "reply \<Rightarrow> exn + (nat \<times> json option)" where
  "requests_get r = (case r of No_reply \<Rightarrow> Inl ConnectionError | Reply st b \<Rightarrow> Inr (st, b))"

text \<open>\<open>response.json()\<close> raises when the body is not JSON.\<close>

definition response_json :: "nat \<times> json option \<Rightarrow> exn + json" where
  "response_json response = (case snd response of None \<Rightarrow> Inl JSONDecodeError | Some d \<Rightarrow> Inr d)"

text \<open>\<open>d.get(k, default)\<close>: only a dictionary has the method.\<close>

definition dict_get :: "json \<Rightarrow> str \<Rightarrow> json \<Rightarrow> exn + json" where
  "dict_get d k dflt =
     (case d of
        JObj kvs \<Rightarrow> Inr (case map_of kvs k of None \<Rightarrow> dflt | Some v \<Rightarrow> v)
      | _ \<Rightarrow> Inl AttributeError)"

text \<open>\<open>for hit in hits\<close>: a list gives its items, a str its characters, a
  dictionary its keys; nothing else can be iterated.\<close>

definition iter :: "json \<Rightarrow> exn + json list" where
  "iter v =
     (case v of
        JArr xs \<Rightarrow> Inr xs
      | JStr s \<Rightarrow> Inr (map (\<lambda>c. JStr [c]) s)
      | JObj kvs \<Rightarrow> Inr (map (\<lambda>kv. JStr (fst kv)) kvs)
      | _ \<Rightarrow> Inl TypeError)"

text \<open>\<open>[hit.get('title', '') for hit in hits]\<close>.\<close>

fun titles_of :: "json list \<Rightarrow> exn + json list" where
  "titles_of [] = Inr []"
| "titles_of (hit # hits) =
     (case dict_get hit (lit ''title'') (JStr []) of
        Inl e \<Rightarrow> Inl e
      | Inr t \<Rightarrow> (case titles_of hits of Inl e \<Rightarrow> Inl e | Inr ts \<Rightarrow> Inr (t # ts)))"

text \<open>\<open>" ".join(...)\<close> accepts strings only.\<close>

fun as_strs :: "json list \<Rightarrow> exn + str list" where
  "as_strs [] = Inr []"
| "as_strs (JStr s # vs) = (case as_strs vs of Inl e \<Rightarrow> Inl e | Inr ss \<Rightarrow> Inr (s # ss))"
| "as_strs (_ # vs) = Inl TypeError"

text \<open>\<open>hits[:5]\<close>: lists and strings can be sliced.\<close>

definition slice5 :: "json \<Rightarrow> exn + json" where
  "slice5 v =
     (case v of
        JArr xs \<Rightarrow> Inr (JArr (take 5 xs))
      | JStr s \<Rightarrow> Inr (JStr (take 5 s))
      | _ \<Rightarrow> Inl TypeError)"

text \<open>\<open>len(v)\<close>, the number of items of a value that has items.\<close>

definition json_len :: "json \<Rightarrow> nat" where
  "json_len v =
     (case v of JArr xs \<Rightarrow> length xs | JStr s \<Rightarrow> length s | JObj kvs \<Rightarrow> length kvs | _ \<Rightarrow> 0)"

subsection \<open>The store\<close>

text \<open>
  The two tables, in insertion order. Timestamps are microseconds.

  Modelled from the spec: the table declarations are not part of the repository. The
  identifier of a snapshot is assigned on creation from a counter (\<open>next_id\<close>), and both
  timestamps default to the time of the write; \<open>collect\<close> names neither column.
\<close>

record snapshot_row =
  snap_id :: nat
  source :: str
  raw_data :: json
  captured_at :: int

record word_velocity_row =
  word :: str
  count :: int
  snapshot_id :: nat
  observed_at :: int

text \<open>What every reader of the store sees: the committed rows.\<close>

record database =
  snapshots :: "snapshot_row list"
  word_velocity :: "word_velocity_row list"
  next_id :: nat

text \<open>
  A \<open>psycopg2\<close> connection: the first statement opens a transaction, whose writes stay
  with the connection until \<open>commit\<close> publishes them. A connection that goes away
  without \<open>commit\<close> takes them with it. The counter is not part of the transaction.
\<close>

record connection =
  server :: database
  pending_snapshots :: "snapshot_row list"
  pending_word_velocity :: "word_velocity_row list"

text \<open>The call to the store that fails in a run, if any.\<close>

datatype fault =
    No_fault
  | Connect_fails
  | Insert_snapshot_fails
  | Insert_word_velocity_fails
  | Commit_fails
  | Close_fails
  | Select_fails

definition get_db_connection :: "fault \<Rightarrow> database \<Rightarrow> exn + connection" where
  "get_db_connection fault db =
     (if fault = Connect_fails then Inl OperationalError
      else Inr \<lparr>server = db, pending_snapshots = [], pending_word_velocity = []\<rparr>)"

text \<open>\<open>INSERT INTO snapshots (source, raw_data) VALUES (%s, %s) RETURNING id\<close>, and
  \<open>cur.fetchone()[0]\<close>.\<close>

definition execute_insert_snapshot ::
  "fault \<Rightarrow> int \<Rightarrow> str \<Rightarrow> json \<Rightarrow> connection \<Rightarrow> exn + (nat \<times> connection)" where
  "execute_insert_snapshot fault clock src raw conn =
     (if fault = Insert_snapshot_fails then Inl OperationalError
      else
        let i = next_id (server conn);
            row = \<lparr>snap_id = i, source = src, raw_data = raw, captured_at = clock\<rparr>
        in Inr (i, conn\<lparr>server := (server conn)\<lparr>next_id := Suc i\<rparr>,
                       pending_snapshots := pending_snapshots conn @ [row]\<rparr>))"

text \<open>
  \<open>INSERT INTO word_velocity (word, count, snapshot_id) VALUES\<close> followed by
  \<open>args_str\<close>, the rows of \<open>args_list\<close> joined by commas. With no row the statement
  ends after \<open>VALUES\<close>, which PostgreSQL refuses as a syntax error.
\<close>

definition execute_insert_word_velocity ::
  "fault \<Rightarrow> int \<Rightarrow> (str \<times> int \<times> nat) list \<Rightarrow> connection \<Rightarrow> exn + connection" where
  "execute_insert_word_velocity fault clock args_list conn =
     (if fault = Insert_word_velocity_fails then Inl OperationalError
      else if args_list = [] then Inl ProgrammingError
      else Inr (conn\<lparr>pending_word_velocity := pending_word_velocity conn @
             map (\<lambda>(w, c, i). \<lparr>word = w, count = c, snapshot_id = i, observed_at = clock\<rparr>)
               args_list\<rparr>))"

definition commit :: "fault \<Rightarrow> connection \<Rightarrow> exn + connection" where
  "commit fault conn =
     (if fault = Commit_fails then Inl OperationalError
      else Inr \<lparr>server = (server conn)
                  \<lparr>snapshots := snapshots (server conn) @ pending_snapshots conn,
                   word_velocity := word_velocity (server conn) @ pending_word_velocity conn\<rparr>,
                pending_snapshots = [], pending_word_velocity = []\<rparr>)"

text \<open>\<open>cur.close()\<close> and \<open>conn.close()\<close>; what is left is the committed store.\<close>

definition close :: "fault \<Rightarrow> connection \<Rightarrow> exn + database" where
  "close fault conn = (if fault = Close_fails then Inl OperationalError else Inr (server conn))"

subsection \<open>\<open>collect\<close>\<close>

text \<open>Step 1, fetch: \<open>requests.get\<close>, \<open>response.json()\<close>, \<open>data.get('hits', [])\<close>.\<close>

definition fetch_hits :: "reply \<Rightarrow> exn + json" where
  "fetch_hits reply =
     (case requests_get reply of
        Inl e \<Rightarrow> Inl e
      | Inr response \<Rightarrow>
          (case response_json response of
             Inl e \<Rightarrow> Inl e
           | Inr data \<Rightarrow> dict_get data (lit ''hits'') (JArr [])))"

text \<open>Step 2, extract the words of the titles.\<close>

definition title_words :: "unicode \<Rightarrow> (str \<Rightarrow> str list) \<Rightarrow> json \<Rightarrow> exn + str list" where
  "title_words ucd tokenize hits =
     (case iter hits of
        Inl e \<Rightarrow> Inl e
      | Inr items \<Rightarrow>
          (case titles_of items of
             Inl e \<Rightarrow> Inl e
           | Inr ts \<Rightarrow>
               (case as_strs ts of
                  Inl e \<Rightarrow> Inl e
                | Inr titles \<Rightarrow> Inr (extract_words ucd tokenize titles))))"

text \<open>
  Step 3, store: connect, insert the snapshot, insert the fifty most common words in
  one statement, commit, close. When a call raises, the connection is left behind as
  it is, and the store is what the server holds. The local \<open>snapshot_id\<close> of the source
  is \<open>sid\<close> here, the column keeping the name.
\<close>

definition store_counts ::
  "fault \<Rightarrow> int \<Rightarrow> json \<Rightarrow> counter \<Rightarrow> database \<Rightarrow> (exn + nat) \<times> database" where
  "store_counts fault clock hits word_counts db =
     (case get_db_connection fault db of
        Inl e \<Rightarrow> (Inl e, db)
      | Inr conn \<Rightarrow>
     (case slice5 hits of
        Inl e \<Rightarrow> (Inl e, server conn)
      | Inr raw \<Rightarrow>
     (case execute_insert_snapshot fault clock (lit ''HackerNews'') raw conn of
        Inl e \<Rightarrow> (Inl e, server conn)
      | Inr (sid, conn1) \<Rightarrow>
     (let args_list = map (\<lambda>(w, c). (w, c, sid)) (most_common 50 word_counts) in
     (case execute_insert_word_velocity fault clock args_list conn1 of
        Inl e \<Rightarrow> (Inl e, server conn1)
      | Inr conn2 \<Rightarrow>
     (case commit fault conn2 of
        Inl e \<Rightarrow> (Inl e, server conn2)
      | Inr conn3 \<Rightarrow>
     (case close fault conn3 of
        Inl e \<Rightarrow> (Inl e, server conn3)
      | Inr db' \<Rightarrow> (Inr sid, db'))))))))"

text \<open>The JSON object a run answers with; \<open>message\<close> stands for \<open>str(e)\<close>.\<close>

datatype payload =
    Success (snapshot_id_of: nat) (top_words_of: "(str \<times> int) list")
  | Error (message: exn)

fun status :: "payload \<Rightarrow> str" where
  "status (Success _ _) = lit ''success''"
| "status (Error _) = lit ''error''"

text \<open>The body of the \<open>try\<close> block.\<close>

definition collect_body ::
  "unicode \<Rightarrow> (str \<Rightarrow> str list) \<Rightarrow> fault \<Rightarrow> int \<Rightarrow> reply \<Rightarrow> database \<Rightarrow> (exn + payload) \<times> database" where
  "collect_body ucd tokenize fault clock reply db =
     (case fetch_hits reply of
        Inl e \<Rightarrow> (Inl e, db)
      | Inr hits \<Rightarrow>
     (case title_words ucd tokenize hits of
        Inl e \<Rightarrow> (Inl e, db)
      | Inr words \<Rightarrow>
     (let word_counts = Counter words in
     (case store_counts fault clock hits word_counts db of
        (Inl e, db') \<Rightarrow> (Inl e, db')
      | (Inr sid, db') \<Rightarrow>
          (Inr (Success sid (most_common 5 word_counts)), db')))))"

text \<open>
  \<open>collect\<close>: the \<open>try\<close> block and its handler. The result is the JSON object, the
  HTTP status of the answer (200 unless the handler sets 500) and the store afterwards.
\<close>

definition collect ::
  "unicode \<Rightarrow> (str \<Rightarrow> str list) \<Rightarrow> fault \<Rightarrow> int \<Rightarrow> reply \<Rightarrow> database \<Rightarrow> (payload \<times> nat) \<times> database" where
  "collect ucd tokenize fault clock reply db =
     (case collect_body ucd tokenize fault clock reply db of
        (Inr p, db') \<Rightarrow> ((p, 200), db')
      | (Inl e, db') \<Rightarrow> ((Error e, 500), db'))"

subsection \<open>\<open>dashboard\<close>\<close>

definition interval_24_hours :: int where
  "interval_24_hours = 24 * 60 * 60 * 1000000"

text \<open>
  The query of \<open>dashboard\<close>:
  \<open>SELECT word, SUM(count) AS total FROM word_velocity
    WHERE observed_at > NOW() - INTERVAL '24 hours'
    GROUP BY word ORDER BY total DESC LIMIT 10\<close>.
  SQL leaves the order of equal totals open; here groups stand in the order of their
  first row and the sort is stable.
\<close>

definition trend_query :: "int \<Rightarrow> word_velocity_row list \<Rightarrow> (str \<times> int) list" where
  "trend_query now rows =
     (let selected = filter (\<lambda>r. observed_at r > now - interval_24_hours) rows;
          totals = tally [] (map (\<lambda>r. (word r, count r)) selected)
      in take 10 (sorted_reverse snd totals))"

text \<open>\<open>cur.execute\<close> of the query and \<open>cur.fetchall()\<close>.\<close>

definition execute_select :: "fault \<Rightarrow> int \<Rightarrow> connection \<Rightarrow> exn + (str \<times> int) list" where
  "execute_select fault now conn =
     (if fault = Select_fails then Inl OperationalError
      else Inr (trend_query now (word_velocity (server conn) @ pending_word_velocity conn)))"

text \<open>
  \<open>dashboard\<close> has no handler: an exception leaves it. The result is the pair of
  \<open>labels\<close> and \<open>data\<close> given to the template.
\<close>

definition dashboard :: "fault \<Rightarrow> int \<Rightarrow> database \<Rightarrow> exn + (str list \<times> int list)" where
  "dashboard fault now db =
     (case get_db_connection fault db of
        Inl e \<Rightarrow> Inl e
      | Inr conn \<Rightarrow>
     (case execute_select fault now conn of
        Inl e \<Rightarrow> Inl e
      | Inr top_words \<Rightarrow>
     (case close fault conn of
        Inl e \<Rightarrow> Inl e
      | Inr _ \<Rightarrow> Inr (map fst top_words, map snd top_words))))"

text \<open>
  The trend query as the specification words it, for comparison with \<open>trend_query\<close>:
  the rows whose timestamp lies in \<open>[now - windowDuration, now)\<close>, grouped by word,
  summed, sorted descending, truncated to \<open>limit\<close>.
\<close>

definition spec_topWords :: "int \<Rightarrow> nat \<Rightarrow> int \<Rightarrow> word_velocity_row list \<Rightarrow> (str \<times> int) list" where
  "spec_topWords windowDuration limit now rows =
     (let selected = filter (\<lambda>r. now - windowDuration \<le> observed_at r \<and> observed_at r < now) rows;
          totals = tally [] (map (\<lambda>r. (word r, count r)) selected)
      in take limit (sorted_reverse snd totals))"

subsection \<open>Example data\<close>

text \<open>A store with no rows, a front page of two stories, and the store after one run of
  \<open>collect\<close> on that front page at time 1000.\<close>

definition empty_store :: database where
  "empty_store = \<lparr>snapshots = [], word_velocity = [], next_id = 1\<rparr>"

definition front_page :: json where
  "front_page = JObj [(lit ''hits'', JArr
     [JObj [(lit ''title'', JStr (lit ''Show HN: new database engine''))],
      JObj [(lit ''title'', JStr (lit ''Ask HN: why is rust so hard''))]])]"

definition stored_front_page :: database where
  "stored_front_page =
     \<lparr>snapshots =
        [\<lparr>snap_id = 1, source = lit ''HackerNews'',
          raw_data = JArr
            [JObj [(lit ''title'', JStr (lit ''Show HN: new database engine''))],
             JObj [(lit ''title'', JStr (lit ''Ask HN: why is rust so hard''))]],
          captured_at = 1000\<rparr>],
      word_velocity =
        [\<lparr>word = lit ''database'', count = 1, snapshot_id = 1, observed_at = 1000\<rparr>,
         \<lparr>word = lit ''engine'', count = 1, snapshot_id = 1, observed_at = 1000\<rparr>,
         \<lparr>word = lit ''rust'', count = 1, snapshot_id = 1, observed_at = 1000\<rparr>,
         \<lparr>word = lit ''hard'', count = 1, snapshot_id = 1, observed_at = 1000\<rparr>],
      next_id = 2\<rparr>"

text \<open>Two rows of \<open>word_velocity\<close>, read at time 86400000000 (24 hours after 0): one stamped
  exactly 24 hours earlier, one stamped at the time of reading.\<close>

definition day_old_row :: word_velocity_row where
  "day_old_row = \<lparr>word = lit ''rust'', count = 3, snapshot_id = 1, observed_at = 0\<rparr>"

definition fresh_row :: word_velocity_row where
  "fresh_row = \<lparr>word = lit ''engine'', count = 2, snapshot_id = 2, observed_at = 86400000000\<rparr>"

section \<open>Properties\<close>

subsection \<open>Literals\<close>

lemma lit_error_not_success [simp]: "lit ''error'' \<noteq> lit ''success''"
  by (simp add: lit_def)


subsection \<open>Counters\<close>

lemma fst_add_count: "map fst (add_count w c gs) = (if w \<in> fst ` set gs then map fst gs else map fst gs @ [w])"
  by (induction gs) (force+)

lemma distinct_add_count: "distinct (map fst gs) \<Longrightarrow> distinct (map fst (add_count w c gs))"
  by (simp add: fst_add_count)

lemma set_fst_add_count: "fst ` set (add_count w c gs) = insert w (fst ` set gs)"
proof -
  have "set (map fst (add_count w c gs)) = insert w (set (map fst gs))"
    unfolding fst_add_count by auto
  then show ?thesis by simp
qed

lemma distinct_tally: "distinct (map fst acc) \<Longrightarrow> distinct (map fst (tally acc xs))"
  by (induction acc xs rule: tally.induct) (simp_all add: distinct_add_count)

lemma set_fst_tally: "fst ` set (tally acc xs) = fst ` set acc \<union> fst ` set xs"
  by (induction acc xs rule: tally.induct) (auto simp: set_fst_add_count)

lemma distinct_Counter: "distinct (map fst (Counter ws))"
  by (simp add: Counter_def distinct_tally)

lemma keys_Counter: "fst ` set (Counter ws) = set ws"
  by (simp add: Counter_def set_fst_tally image_image)

lemma length_Counter: "length (Counter ws) = card (set ws)"
proof -
  have "length (Counter ws) = length (map fst (Counter ws))" by simp
  also have "\<dots> = card (set (map fst (Counter ws)))"
    using distinct_Counter by (simp only: distinct_card)
  also have "\<dots> = card (set ws)" by (simp add: keys_Counter)
  finally show ?thesis .
qed

lemma sorted_reverse_desc: "sorted_wrt (\<lambda>a b. key b \<le> key a) (sorted_reverse key xs)"
proof -
  have "sorted (map key (sort_key key (rev xs)))" by simp
  then have "sorted_wrt (\<lambda>a b. key a \<le> key b) (sort_key key (rev xs))"
    by (simp add: sorted_wrt_map)
  then show ?thesis
    by (simp add: sorted_reverse_def sorted_wrt_rev)
qed

lemma length_sorted_reverse: "length (sorted_reverse key xs) = length xs"
  by (simp add: sorted_reverse_def)

lemma sorted_wrt_take_desc: "sorted_wrt P xs \<Longrightarrow> sorted_wrt P (take n xs)"
  by (metis append_take_drop_id sorted_wrt_append)

lemma map_of_add_count:
  "map_of (add_count w c gs) =
     (map_of gs)(w \<mapsto> (case map_of gs w of None \<Rightarrow> c | Some t \<Rightarrow> t + c))"
  by (induction gs) (auto simp: fun_eq_iff)

lemma map_of_tally:
  "map_of (tally acc xs) w =
     (if w \<in> fst ` set acc \<or> w \<in> fst ` set xs
      then Some ((case map_of acc w of None \<Rightarrow> 0 | Some t \<Rightarrow> t) +
                 sum_list (map snd (filter (\<lambda>p. fst p = w) xs)))
      else None)"
proof (induction acc xs rule: tally.induct)
  case (1 acc)
  then show ?case
    by (auto simp: map_of_eq_None_iff split: option.splits)
next
  case (2 acc v c xs)
  show ?case
  proof (cases "w = v")
    case True
    then show ?thesis
      using 2 by (auto simp: map_of_add_count set_fst_add_count split: option.splits)
  next
    case False
    then show ?thesis
      using 2 by (auto simp: map_of_add_count set_fst_add_count split: option.splits)
  qed
qed

lemma tally_entry:
  "(w, t) \<in> set (tally [] xs) \<longleftrightarrow>
     w \<in> fst ` set xs \<and> t = sum_list (map snd (filter (\<lambda>p. fst p = w) xs))"
proof -
  have "distinct (map fst (tally [] xs))" by (simp add: distinct_tally)
  then have "(w, t) \<in> set (tally [] xs) \<longleftrightarrow> map_of (tally [] xs) w = Some t"
    by simp
  then show ?thesis by (auto simp: map_of_tally)
qed

lemma length_tally: "length (tally [] xs) = card (fst ` set xs)"
proof -
  have "length (tally [] xs) = length (map fst (tally [] xs))" by simp
  also have "\<dots> = card (set (map fst (tally [] xs)))"
    by (simp only: distinct_card [OF distinct_tally [of "[]" xs, simplified]])
  also have "\<dots> = card (fst ` set xs)" by (simp add: set_fst_tally)
  finally show ?thesis .
qed

lemma set_sorted_reverse: "set (sorted_reverse key xs) = set xs"
  by (simp add: sorted_reverse_def)

lemma distinct_map_insort_key:
  "distinct (map f (insort_key key x xs)) \<longleftrightarrow> f x \<notin> f ` set xs \<and> distinct (map f xs)"
  by (induction xs) (auto simp: set_insort_key)

lemma distinct_map_sort_key:
  "distinct (map f (sort_key key xs)) = distinct (map f xs)"
  by (induction xs) (simp_all add: distinct_map_insort_key)

lemma distinct_sorted_reverse:
  "distinct (map f (sorted_reverse key xs)) = distinct (map f xs)"
proof -
  have "distinct (map f (sorted_reverse key xs)) = distinct (rev (map f (sort_key key (rev xs))))"
    by (simp only: sorted_reverse_def rev_map)
  also have "\<dots> = distinct (map f (rev xs))"
    by (simp only: distinct_rev distinct_map_sort_key)
  also have "\<dots> = distinct (map f xs)"
    by (simp only: rev_map [symmetric] distinct_rev)
  finally show ?thesis .
qed

lemma take_dominates:
  assumes "sorted_wrt P xs" and "a \<in> set (take n xs)" and "b \<in> set xs" and "b \<notin> set (take n xs)"
  shows "P a b"
proof -
  have "b \<in> set (drop n xs)"
    using assms(3,4) by (metis Un_iff append_take_drop_id set_append)
  moreover have "sorted_wrt P (take n xs @ drop n xs)" using assms(1) by simp
  ultimately show ?thesis using assms(2) by (simp only: sorted_wrt_append)
qed

subsection \<open>The steps of \<open>collect\<close>\<close>

lemma slice5_len: "slice5 hits = Inr raw \<Longrightarrow> json_len raw \<le> 5"
  by (auto simp: slice5_def json_len_def split: json.splits)

lemma length_most_common: "length (most_common n c) \<le> n"
  by (simp add: most_common_def)

text \<open>What a run of step 3 leaves, by its result.\<close>

lemma store_counts_Inr:
  assumes "store_counts fault clock hits wc db = (Inr sid, db')"
  shows "sid = next_id db \<and> most_common 50 wc \<noteq> [] \<and>
    (\<exists>raw. slice5 hits = Inr raw \<and>
      db' = \<lparr>snapshots = snapshots db @
               [\<lparr>snap_id = sid, source = lit ''HackerNews'', raw_data = raw, captured_at = clock\<rparr>],
             word_velocity = word_velocity db @
               map (\<lambda>(w, c). \<lparr>word = w, count = c, snapshot_id = sid, observed_at = clock\<rparr>)
                 (most_common 50 wc),
             next_id = Suc (next_id db)\<rparr>)"
  using assms
  by (auto simp: store_counts_def get_db_connection_def execute_insert_snapshot_def
      execute_insert_word_velocity_def commit_def close_def Let_def comp_def case_prod_unfold
      split: sum.splits if_splits)

lemma store_counts_Inl:
  assumes "store_counts fault clock hits wc db = (Inl e, db')"
  shows "(snapshots db' = snapshots db \<and> word_velocity db' = word_velocity db) \<or>
    (fault = Close_fails \<and> e = OperationalError \<and> most_common 50 wc \<noteq> [] \<and>
     (\<exists>raw. slice5 hits = Inr raw \<and>
      db' = \<lparr>snapshots = snapshots db @
               [\<lparr>snap_id = next_id db, source = lit ''HackerNews'', raw_data = raw, captured_at = clock\<rparr>],
             word_velocity = word_velocity db @
               map (\<lambda>(w, c). \<lparr>word = w, count = c, snapshot_id = next_id db, observed_at = clock\<rparr>)
                 (most_common 50 wc),
             next_id = Suc (next_id db)\<rparr>))"
  using assms
  by (auto simp: store_counts_def get_db_connection_def execute_insert_snapshot_def
      execute_insert_word_velocity_def commit_def close_def Let_def comp_def case_prod_unfold
      split: sum.splits if_splits)

lemma store_counts_no_commit:
  assumes "store_counts fault clock hits wc db = (r, db')"
    and "fault \<in> {Connect_fails, Insert_snapshot_fails, Insert_word_velocity_fails, Commit_fails}"
  shows "snapshots db' = snapshots db \<and> word_velocity db' = word_velocity db \<and> (\<exists>e. r = Inl e)"
  using assms
  by (auto simp: store_counts_def get_db_connection_def execute_insert_snapshot_def
      execute_insert_word_velocity_def commit_def close_def Let_def comp_def case_prod_unfold
      split: sum.splits if_splits)


lemma collect_body_Inr:
  assumes "collect_body ucd tokenize fault clock reply db = (Inr p, db')"
  shows "\<exists>hits words. fetch_hits reply = Inr hits \<and> title_words ucd tokenize hits = Inr words \<and>
           store_counts fault clock hits (Counter words) db = (Inr (snapshot_id_of p), db') \<and>
           p = Success (snapshot_id_of p) (most_common 5 (Counter words))"
  using assms
  by (auto simp: collect_body_def Let_def split: sum.splits prod.splits)

lemma collect_body_Inl:
  assumes "collect_body ucd tokenize fault clock reply db = (Inl e, db')"
  shows "(db' = db \<and> (fetch_hits reply = Inl e \<or>
            (\<exists>hits. fetch_hits reply = Inr hits \<and> title_words ucd tokenize hits = Inl e))) \<or>
         (\<exists>hits words. fetch_hits reply = Inr hits \<and> title_words ucd tokenize hits = Inr words \<and>
            store_counts fault clock hits (Counter words) db = (Inl e, db'))"
  using assms
  by (auto simp: collect_body_def Let_def split: sum.splits prod.splits)

lemma collect_cases:
  "(\<exists>p db'. collect_body ucd tokenize fault clock reply db = (Inr p, db') \<and>
       collect ucd tokenize fault clock reply db = ((p, 200), db')) \<or>
   (\<exists>e db'. collect_body ucd tokenize fault clock reply db = (Inl e, db') \<and>
       collect ucd tokenize fault clock reply db = ((Error e, 500), db'))"
  by (cases "collect_body ucd tokenize fault clock reply db")
     (auto simp: collect_def split: sum.splits)

lemma no_row_of_next_id:
  assumes "\<forall>r\<in>set (word_velocity db). snapshot_id r < next_id db"
  shows "filter (\<lambda>r. snapshot_id r = next_id db) (word_velocity db) = []"
  using assms by (auto simp: filter_empty_conv)

lemma caps_unchanged:
  assumes "snapshots db' = snapshots db" "word_velocity db' = word_velocity db"
    and "status p = lit ''error''"
  shows "\<exists>ss rows.
           snapshots db' = snapshots db @ ss \<and> length ss \<le> 1 \<and>
           (\<forall>s\<in>set ss. snap_id s = next_id db \<and> json_len (raw_data s) \<le> 5 \<and>
              (\<exists>hits. fetch_hits reply = Inr hits \<and> slice5 hits = Inr (raw_data s))) \<and>
           word_velocity db' = word_velocity db @ rows \<and> length rows \<le> 50 \<and>
           (\<forall>r\<in>set rows. snapshot_id r = next_id db) \<and>
           (status p = lit ''success'' \<longrightarrow> snapshot_id_of p = next_id db \<and> length ss = 1) \<and>
           ((\<forall>r\<in>set (word_velocity db). snapshot_id r < next_id db) \<longrightarrow>
              length (filter (\<lambda>r. snapshot_id r = next_id db) (word_velocity db')) \<le> 50)"
  using assms no_row_of_next_id [of db]
  by (intro exI [of _ "[]"]) simp

lemma caps_published:
  assumes f: "fetch_hits reply = Inr hits" and sl: "slice5 hits = Inr raw"
    and i: "status p = lit ''success'' \<longrightarrow> snapshot_id_of p = next_id db"
    and d: "db' = \<lparr>snapshots = snapshots db @
               [\<lparr>snap_id = next_id db, source = lit ''HackerNews'', raw_data = raw, captured_at = clock\<rparr>],
             word_velocity = word_velocity db @
               map (\<lambda>(w, c). \<lparr>word = w, count = c, snapshot_id = next_id db, observed_at = clock\<rparr>)
                 (most_common 50 wc),
             next_id = Suc (next_id db)\<rparr>"
  shows "\<exists>ss rows.
           snapshots db' = snapshots db @ ss \<and> length ss \<le> 1 \<and>
           (\<forall>s\<in>set ss. snap_id s = next_id db \<and> json_len (raw_data s) \<le> 5 \<and>
              (\<exists>hits. fetch_hits reply = Inr hits \<and> slice5 hits = Inr (raw_data s))) \<and>
           word_velocity db' = word_velocity db @ rows \<and> length rows \<le> 50 \<and>
           (\<forall>r\<in>set rows. snapshot_id r = next_id db) \<and>
           (status p = lit ''success'' \<longrightarrow> snapshot_id_of p = next_id db \<and> length ss = 1) \<and>
           ((\<forall>r\<in>set (word_velocity db). snapshot_id r < next_id db) \<longrightarrow>
              length (filter (\<lambda>r. snapshot_id r = next_id db) (word_velocity db')) \<le> 50)"
proof -
  let ?s = "\<lparr>snap_id = next_id db, source = lit ''HackerNews'', raw_data = raw, captured_at = clock\<rparr>"
  let ?rows = "map (\<lambda>(w, c). \<lparr>word = w, count = c, snapshot_id = next_id db, observed_at = clock\<rparr>)
               (most_common 50 wc)"
  have l: "length ?rows \<le> 50" by (simp add: length_most_common)
  have a: "\<forall>r\<in>set ?rows. snapshot_id r = next_id db" by auto
  have fl: "length (filter (\<lambda>r. snapshot_id r = next_id db) (word_velocity db @ ?rows)) \<le> 50"
    if "\<forall>r\<in>set (word_velocity db). snapshot_id r < next_id db"
  proof -
    have "filter (\<lambda>r. snapshot_id r = next_id db) ?rows = ?rows"
      using a by (intro filter_True)
    with l no_row_of_next_id [OF that] show ?thesis by (simp only: filter_append append_Nil)
  qed
  show ?thesis
    apply (rule exI [of _ "[?s]"])
    apply (rule exI [of _ ?rows])
    using f sl i d l a fl slice5_len [OF sl] by simp
qed

lemma run_front_page:
  "collect unicode_excerpt (simple_words unicode_excerpt) No_fault 1000 (Reply 200 (Some front_page)) empty_store =
     ((Success 1 [(lit ''database'', 1), (lit ''engine'', 1), (lit ''rust'', 1), (lit ''hard'', 1)], 200),
      stored_front_page)"
  by code_simp

subsection \<open>Tokenizer and filter\<close>

lemma ascii_lower_lowercase:
  assumes "c < 128" and "ascii_upper (ascii_lower c) \<or> ascii_lowercase (ascii_lower c)"
  shows "ascii_lowercase (ascii_lower c)"
  using assms by (auto simp: ascii_lower_def ascii_upper_def ascii_lowercase_def split: if_splits)

lemma ascii_lower_bound: "c < 128 \<Longrightarrow> ascii_lower c < 128"
  by (auto simp: ascii_lower_def ascii_upper_def)

text \<open>
  C2, as the code has it. Every word that step 2 of \<open>collect\<close> keeps is not empty, is
  made of alphabetic characters only, each of them a character of the lower-cased text,
  is longer than two characters and is no stopword. When the titles are ASCII, and
  \<open>str.lower()\<close> and the letters are the ASCII ones there, the word is made of the
  letters \<open>a\<close> to \<open>z\<close> only. The tokenizer is a parameter; what is asked of it is that
  the letters of its tokens are letters of the text it was given.
\<close>

theorem extract_words_tokens:
  assumes "\<forall>w\<in>set (tokenize (lower ucd (join (lit '' '') titles))). \<forall>c\<in>set w.
             is_alphabetic ucd c \<longrightarrow> c \<in> set (lower ucd (join (lit '' '') titles))"
  shows "\<forall>w\<in>set (extract_words ucd tokenize titles).
           w \<noteq> [] \<and>
           (\<forall>c\<in>set w. is_alphabetic ucd c \<and> c \<in> set (lower ucd (join (lit '' '') titles))) \<and>
           length w > 2 \<and> w \<notin> STOPWORDS \<and>
           ((\<forall>c\<in>set (join (lit '' '') titles). c < 128) \<and>
            lower ucd (join (lit '' '') titles) = map ascii_lower (join (lit '' '') titles) \<and>
            (\<forall>c<128. is_alphabetic ucd c \<longrightarrow> ascii_upper c \<or> ascii_lowercase c) \<longrightarrow>
            (\<forall>c\<in>set w. ascii_lowercase c))"
proof
  let ?text = "join (lit '' '') titles"
  fix w assume w: "w \<in> set (extract_words ucd tokenize titles)"
  then have tok: "w \<in> set (tokenize (lower ucd ?text))" and keep: "keep_word ucd w"
    by (simp_all add: extract_words_def)
  have alpha: "\<forall>c\<in>set w. is_alphabetic ucd c"
    using keep by (simp add: keep_word_def isalpha_def list_all_iff)
  have from_text: "\<forall>c\<in>set w. c \<in> set (lower ucd ?text)"
    using assms tok alpha by blast
  have ascii: "\<forall>c\<in>set w. ascii_lowercase c"
    if a: "\<forall>c\<in>set ?text. c < 128"
      and l: "lower ucd ?text = map ascii_lower ?text"
      and t: "\<forall>c<128. is_alphabetic ucd c \<longrightarrow> ascii_upper c \<or> ascii_lowercase c"
  proof
    fix c assume c: "c \<in> set w"
    with from_text l have "c \<in> ascii_lower ` set ?text" by simp
    then obtain d where d: "d \<in> set ?text" "c = ascii_lower d" by blast
    with a have small: "d < 128" by blast
    then have "c < 128" using d(2) by (simp add: ascii_lower_bound)
    moreover have "is_alphabetic ucd c" using alpha c by blast
    ultimately have "ascii_upper c \<or> ascii_lowercase c" using t by blast
    then show "ascii_lowercase c"
      unfolding d(2) by (rule ascii_lower_lowercase [OF small])
  qed
  from keep have "w \<noteq> []" "length w > 2" "w \<notin> STOPWORDS"
    by (simp_all add: keep_word_def isalpha_def)
  with alpha from_text ascii
  show "w \<noteq> [] \<and>
           (\<forall>c\<in>set w. is_alphabetic ucd c \<and> c \<in> set (lower ucd ?text)) \<and>
           length w > 2 \<and> w \<notin> STOPWORDS \<and>
           ((\<forall>c\<in>set ?text. c < 128) \<and>
            lower ucd ?text = map ascii_lower ?text \<and>
            (\<forall>c<128. is_alphabetic ucd c \<longrightarrow> ascii_upper c \<or> ascii_lowercase c) \<longrightarrow>
            (\<forall>c\<in>set w. ascii_lowercase c))"
    by blast
qed

text \<open>
  The two titles of the example of the specification: four words are kept, all of them
  made of the letters \<open>a\<close> to \<open>z\<close>.
\<close>

theorem extract_words_tokens_witness:
  "extract_words unicode_excerpt (simple_words unicode_excerpt)
     [lit ''Show HN: new database engine'', lit ''Ask HN: why is rust so hard'']
     = [lit ''database'', lit ''engine'', lit ''rust'', lit ''hard''] \<and>
   list_all (\<lambda>w. w \<noteq> [] \<and> list_all (is_alphabetic unicode_excerpt) w \<and>
               list_all ascii_lowercase w \<and> length w > 2 \<and> w \<notin> STOPWORDS)
     [lit ''database'', lit ''engine'', lit ''rust'', lit ''hard'']"
proof -
  let ?titles = "[lit ''Show HN: new database engine'', lit ''Ask HN: why is rust so hard'']"
  let ?text = "join (lit '' '') ?titles"
  have h: "\<forall>w\<in>set (simple_words unicode_excerpt (lower unicode_excerpt ?text)). \<forall>c\<in>set w.
             is_alphabetic unicode_excerpt c \<longrightarrow> c \<in> set (lower unicode_excerpt ?text)"
    by code_simp
  have e: "extract_words unicode_excerpt (simple_words unicode_excerpt) ?titles
      = [lit ''database'', lit ''engine'', lit ''rust'', lit ''hard'']"
    by code_simp
  have a: "\<forall>c\<in>set ?text. c < 128"
    by code_simp
  have l: "lower unicode_excerpt ?text = map ascii_lower ?text"
    by (simp add: lower_def unicode_excerpt_def)
  have t: "\<forall>c<128. is_alphabetic unicode_excerpt c \<longrightarrow> ascii_upper c \<or> ascii_lowercase c"
    by (simp add: unicode_excerpt_def)
  from extract_words_tokens [of "simple_words unicode_excerpt" unicode_excerpt ?titles, OF h]
    a l t
  show ?thesis
    unfolding e by (simp add: list_all_iff)
qed

text \<open>
  C2 as stated fails on the title made of U+211D, U+2115 and U+2124: it is one
  token, alphabetic, of length 3 and no stopword, \<open>str.lower()\<close> leaves it as it is, and
  none of its characters is lower case.
\<close>

theorem extract_words_tokens_counterexample:
  "extract_words unicode_excerpt (simple_words unicode_excerpt) [[8477, 8469, 8484]]
     = [[8477, 8469, 8484]] \<and>
   list_all (\<lambda>c. \<not> is_lowercase unicode_excerpt c) [8477, 8469, 8484]"
  by code_simp

subsection \<open>Frequency counter\<close>

text \<open>
  C3. For every word sequence and every \<open>n\<close> (50 for the rows stored, 5 for the summary),
  \<open>most_common n\<close> of its counter is sorted by count, largest first, and has at most
  \<open>min n d\<close> entries, \<open>d\<close> the number of distinct words.
\<close>

theorem most_common_sorted_bounded:
  "sorted_wrt (\<lambda>a b. snd b \<le> snd a) (most_common n (Counter ws)) \<and>
   length (most_common n (Counter ws)) \<le> min n (card (set ws))"
  by (simp add: most_common_def sorted_wrt_take_desc sorted_reverse_desc
      length_sorted_reverse length_Counter)

theorem most_common_sorted_bounded_witness:
  "most_common 2 (Counter [lit ''rust'', lit ''go'', lit ''go'', lit ''zig'', lit ''zig'', lit ''rust'', lit ''nim''])
     = [(lit ''rust'', 2), (lit ''go'', 2)] \<and>
   sorted_wrt (\<lambda>a b. snd b \<le> snd a) [(lit ''rust'', 2 :: int), (lit ''go'', 2)] \<and>
   length [(lit ''rust'', 2 :: int), (lit ''go'', 2)]
     \<le> min 2 (card (set [lit ''rust'', lit ''go'', lit ''go'', lit ''zig'', lit ''zig'', lit ''rust'', lit ''nim'']))"
proof -
  have e: "most_common 2 (Counter [lit ''rust'', lit ''go'', lit ''go'', lit ''zig'', lit ''zig'', lit ''rust'', lit ''nim''])
      = [(lit ''rust'', 2), (lit ''go'', 2)]"
    by code_simp
  from most_common_sorted_bounded
    [of 2 "[lit ''rust'', lit ''go'', lit ''go'', lit ''zig'', lit ''zig'', lit ''rust'', lit ''nim'']"]
  show ?thesis unfolding e by simp
qed

subsection \<open>Atomic storing\<close>

text \<open>
  C1. A run of \<open>collect\<close> leaves the two tables as they were, or it has added the
  snapshot row together with all the rows of its fifty most common words. When the
  insert of the snapshot, the insert of the words or the commit fails, and whenever the
  run ends in the syntax error of the word insert, no row of either table has been added
  and the answer is an error.
\<close>

theorem collect_atomic:
  assumes "collect ucd tokenize fault clock reply db = ((p, code), db')"
  shows "((snapshots db' = snapshots db \<and> word_velocity db' = word_velocity db) \<or>
          (\<exists>s rows hits words.
             snapshots db' = snapshots db @ [s] \<and>
             word_velocity db' = word_velocity db @ rows \<and>
             (\<forall>r\<in>set rows. snapshot_id r = snap_id s) \<and>
             fetch_hits reply = Inr hits \<and> title_words ucd tokenize hits = Inr words \<and>
             map (\<lambda>r. (word r, count r)) rows = most_common 50 (Counter words))) \<and>
         (fault \<in> {Insert_snapshot_fails, Insert_word_velocity_fails, Commit_fails} \<longrightarrow>
            snapshots db' = snapshots db \<and> word_velocity db' = word_velocity db \<and>
            status p = lit ''error'') \<and>
         (p = Error ProgrammingError \<longrightarrow>
            snapshots db' = snapshots db \<and> word_velocity db' = word_velocity db)"
proof -
  let ?same = "snapshots db' = snapshots db \<and> word_velocity db' = word_velocity db"
  let ?all = "\<exists>s rows hits words.
             snapshots db' = snapshots db @ [s] \<and>
             word_velocity db' = word_velocity db @ rows \<and>
             (\<forall>r\<in>set rows. snapshot_id r = snap_id s) \<and>
             fetch_hits reply = Inr hits \<and> title_words ucd tokenize hits = Inr words \<and>
             map (\<lambda>r. (word r, count r)) rows = most_common 50 (Counter words)"
  have published: ?all
    if f: "fetch_hits reply = Inr hits" and t: "title_words ucd tokenize hits = Inr words"
      and d: "db' = \<lparr>snapshots = snapshots db @
               [\<lparr>snap_id = i, source = lit ''HackerNews'', raw_data = raw, captured_at = clock\<rparr>],
             word_velocity = word_velocity db @
               map (\<lambda>(w, c). \<lparr>word = w, count = c, snapshot_id = i, observed_at = clock\<rparr>)
                 (most_common 50 (Counter words)),
             next_id = Suc (next_id db)\<rparr>"
    for hits words i raw
  proof -
    let ?rows = "map (\<lambda>(w, c). \<lparr>word = w, count = c, snapshot_id = i, observed_at = clock\<rparr>)
                 (most_common 50 (Counter words))"
    have "map (\<lambda>r. (word r, count r)) ?rows = most_common 50 (Counter words)"
      by (simp add: comp_def case_prod_unfold)
    moreover have "\<forall>r\<in>set ?rows. snapshot_id r = i" by auto
    ultimately show ?thesis using f t d
      by (intro exI [of _ "\<lparr>snap_id = i, source = lit ''HackerNews'', raw_data = raw, captured_at = clock\<rparr>"]
          exI [of _ ?rows] exI [of _ hits] exI [of _ words]) simp
  qed
  from collect_cases [of ucd tokenize fault clock reply db] assms
  consider (ok) "collect_body ucd tokenize fault clock reply db = (Inr p, db')"
    | (err) e where "collect_body ucd tokenize fault clock reply db = (Inl e, db')" "p = Error e"
    by auto
  then show ?thesis
  proof cases
    case ok
    from collect_body_Inr [OF ok] obtain hits words where
      f: "fetch_hits reply = Inr hits" and t: "title_words ucd tokenize hits = Inr words" and
      s: "store_counts fault clock hits (Counter words) db = (Inr (snapshot_id_of p), db')" and
      p: "p = Success (snapshot_id_of p) (most_common 5 (Counter words))"
      by blast
    from store_counts_Inr [OF s] obtain raw where
      "db' = \<lparr>snapshots = snapshots db @
               [\<lparr>snap_id = snapshot_id_of p, source = lit ''HackerNews'', raw_data = raw,
                 captured_at = clock\<rparr>],
             word_velocity = word_velocity db @
               map (\<lambda>(w, c). \<lparr>word = w, count = c, snapshot_id = snapshot_id_of p,
                     observed_at = clock\<rparr>)
                 (most_common 50 (Counter words)),
             next_id = Suc (next_id db)\<rparr>"
      by blast
    from published [OF f t this] have ?all .
    moreover have "fault \<notin> {Insert_snapshot_fails, Insert_word_velocity_fails, Commit_fails}"
      using store_counts_no_commit [OF s] by auto
    moreover have "p \<noteq> Error ProgrammingError" using p by (cases p) auto
    ultimately show ?thesis by blast
  next
    case err
    have st: "status p = lit ''error''" using err(2) by simp
    from collect_body_Inl [OF err(1)] show ?thesis
    proof (elim disjE exE conjE)
      assume "db' = db"
      then show ?thesis using st by simp
    next
      assume "db' = db"
      then show ?thesis using st by simp
    next
      fix hits words
      assume f: "fetch_hits reply = Inr hits" and t: "title_words ucd tokenize hits = Inr words"
        and s: "store_counts fault clock hits (Counter words) db = (Inl e, db')"
      from store_counts_Inl [OF s] show ?thesis
      proof (elim disjE exE conjE)
        assume "snapshots db' = snapshots db" "word_velocity db' = word_velocity db"
        then show ?thesis using st by simp
      next
        fix raw
        assume c: "fault = Close_fails" "e = OperationalError"
          and d: "db' = \<lparr>snapshots = snapshots db @
               [\<lparr>snap_id = next_id db, source = lit ''HackerNews'', raw_data = raw, captured_at = clock\<rparr>],
             word_velocity = word_velocity db @
               map (\<lambda>(w, c). \<lparr>word = w, count = c, snapshot_id = next_id db, observed_at = clock\<rparr>)
                 (most_common 50 (Counter words)),
             next_id = Suc (next_id db)\<rparr>"
        from published [OF f t d] have ?all .
        then show ?thesis using c err(2) by simp
      qed
    qed
  qed
qed

text \<open>
  The insert of the words fails on a front page of two stories: the store keeps no
  row, only the counter of identifiers has moved.
\<close>

theorem collect_atomic_witness:
  "collect unicode_excerpt (simple_words unicode_excerpt) Insert_word_velocity_fails 1000 (Reply 200 (Some front_page)) empty_store
     = ((Error OperationalError, 500), empty_store\<lparr>next_id := 2\<rparr>) \<and>
   snapshots (empty_store\<lparr>next_id := 2\<rparr>) = snapshots empty_store \<and>
   word_velocity (empty_store\<lparr>next_id := 2\<rparr>) = word_velocity empty_store \<and>
   status (Error OperationalError) = lit ''error''"
proof -
  have e: "collect unicode_excerpt (simple_words unicode_excerpt) Insert_word_velocity_fails 1000 (Reply 200 (Some front_page))
      empty_store = ((Error OperationalError, 500), empty_store\<lparr>next_id := 2\<rparr>)"
    by code_simp
  from collect_atomic [OF e] e show ?thesis by simp
qed

subsection \<open>Failing fetch\<close>

text \<open>
  C4, as the code has it. When there is no reply, when the body is not JSON, or when
  the JSON value is not an object, \<open>collect\<close> answers with an error and status 500 and
  the store is unchanged. The status code of the reply is never read: a reply is treated
  as a reply with status 200 and the same body.
\<close>

theorem collect_fetch_failure:
  "collect ucd tokenize fault clock No_reply db = ((Error ConnectionError, 500), db) \<and>
   collect ucd tokenize fault clock (Reply st None) db = ((Error JSONDecodeError, 500), db) \<and>
   ((\<forall>kvs. d \<noteq> JObj kvs) \<longrightarrow>
      collect ucd tokenize fault clock (Reply st (Some d)) db = ((Error AttributeError, 500), db)) \<and>
   collect ucd tokenize fault clock (Reply st b) db = collect ucd tokenize fault clock (Reply 200 b) db"
proof -
  have "(\<forall>kvs. d \<noteq> JObj kvs) \<Longrightarrow> dict_get d (lit ''hits'') (JArr []) = Inl AttributeError"
    by (cases d) (simp_all add: dict_get_def)
  then show ?thesis
    by (simp add: collect_def collect_body_def fetch_hits_def requests_get_def response_json_def)
qed

text \<open>
  The three failures on the empty store.
\<close>

theorem collect_fetch_failure_witness:
  "collect unicode_excerpt (simple_words unicode_excerpt) No_fault 1000 No_reply empty_store
     = ((Error ConnectionError, 500), empty_store) \<and>
   collect unicode_excerpt (simple_words unicode_excerpt) No_fault 1000 (Reply 500 None) empty_store
     = ((Error JSONDecodeError, 500), empty_store) \<and>
   collect unicode_excerpt (simple_words unicode_excerpt) No_fault 1000 (Reply 500 (Some (JArr []))) empty_store
     = ((Error AttributeError, 500), empty_store)"
  using collect_fetch_failure [of unicode_excerpt "simple_words unicode_excerpt" No_fault 1000 empty_store 500 "JArr []" None]
  by simp

text \<open>
  C4 as stated fails: a reply with status 500 whose body is a front page is stored like
  any other, and the answer is a success.
\<close>

theorem collect_status_500_counterexample:
  "collect unicode_excerpt (simple_words unicode_excerpt) No_fault 1000 (Reply 500 (Some front_page)) empty_store =
     ((Success 1 [(lit ''database'', 1), (lit ''engine'', 1), (lit ''rust'', 1), (lit ''hard'', 1)], 200),
      stored_front_page)"
  by code_simp

subsection \<open>No word to store\<close>

text \<open>Whatever the tokenizer and the state of the store, a run whose titles leave no
  word ends in an error and adds no row.\<close>

lemma collect_without_words:
  assumes "fetch_hits reply = Inr hits" and "title_words ucd tokenize hits = Inr []"
  shows "\<exists>e db'. collect ucd tokenize fault clock reply db = ((Error e, 500), db') \<and>
           snapshots db' = snapshots db \<and> word_velocity db' = word_velocity db"
proof -
  have m: "most_common 50 (Counter []) = []"
    by (simp add: most_common_def Counter_def sorted_reverse_def)
  obtain r db' where s: "store_counts fault clock hits (Counter []) db = (r, db')"
    by (cases "store_counts fault clock hits (Counter []) db")
  show ?thesis
  proof (cases r)
    case (Inl e)
    with s store_counts_Inl [of fault clock hits "Counter []" db e db'] m
    have "snapshots db' = snapshots db \<and> word_velocity db' = word_velocity db" by simp
    with s Inl assms show ?thesis
      by (simp add: collect_def collect_body_def)
  next
    case (Inr i)
    with s store_counts_Inr [of fault clock hits "Counter []" db i db'] m
    show ?thesis by simp
  qed
qed

text \<open>
  C5. With no hit, hence no word, the snapshot is inserted but the insert of the words
  has no row after \<open>VALUES\<close>: the run ends in an error, nothing is committed, and no
  snapshot row with zero words exists afterwards.
\<close>

theorem collect_no_words_fails:
  "collect unicode_excerpt (simple_words unicode_excerpt) No_fault 1000 (Reply 200 (Some (JObj [(lit ''hits'', JArr [])]))) empty_store
     = ((Error ProgrammingError, 500), empty_store\<lparr>next_id := 2\<rparr>)"
  by code_simp

subsection \<open>Caps\<close>

text \<open>
  C6. Every run of \<open>collect\<close> adds at most one snapshot row, whose payload is
  \<open>hits[:5]\<close> and has at most 5 items, and at most 50 rows of \<open>word_velocity\<close>, all
  of them carrying the identifier of that snapshot. When no earlier row carries this
  identifier, the snapshot has at most 50 rows in the whole table.
\<close>

theorem collect_caps:
  assumes "collect ucd tokenize fault clock reply db = ((p, code), db')"
  shows "\<exists>ss rows.
           snapshots db' = snapshots db @ ss \<and> length ss \<le> 1 \<and>
           (\<forall>s\<in>set ss. snap_id s = next_id db \<and> json_len (raw_data s) \<le> 5 \<and>
              (\<exists>hits. fetch_hits reply = Inr hits \<and> slice5 hits = Inr (raw_data s))) \<and>
           word_velocity db' = word_velocity db @ rows \<and> length rows \<le> 50 \<and>
           (\<forall>r\<in>set rows. snapshot_id r = next_id db) \<and>
           (status p = lit ''success'' \<longrightarrow> snapshot_id_of p = next_id db \<and> length ss = 1) \<and>
           ((\<forall>r\<in>set (word_velocity db). snapshot_id r < next_id db) \<longrightarrow>
              length (filter (\<lambda>r. snapshot_id r = next_id db) (word_velocity db')) \<le> 50)"
proof -
  from collect_cases [of ucd tokenize fault clock reply db] assms
  consider (ok) "collect_body ucd tokenize fault clock reply db = (Inr p, db')"
    | (err) e where "collect_body ucd tokenize fault clock reply db = (Inl e, db')" "p = Error e"
    by auto
  then show ?thesis
  proof cases
    case ok
    from collect_body_Inr [OF ok] obtain hits words where
      f: "fetch_hits reply = Inr hits" and
      s: "store_counts fault clock hits (Counter words) db = (Inr (snapshot_id_of p), db')"
      by blast
    from store_counts_Inr [OF s] obtain raw where
      i: "snapshot_id_of p = next_id db" and sl: "slice5 hits = Inr raw" and
      d: "db' = \<lparr>snapshots = snapshots db @
               [\<lparr>snap_id = snapshot_id_of p, source = lit ''HackerNews'', raw_data = raw,
                 captured_at = clock\<rparr>],
             word_velocity = word_velocity db @
               map (\<lambda>(w, c). \<lparr>word = w, count = c, snapshot_id = snapshot_id_of p,
                     observed_at = clock\<rparr>)
                 (most_common 50 (Counter words)),
             next_id = Suc (next_id db)\<rparr>"
      by blast
    have "status p = lit ''success'' \<longrightarrow> snapshot_id_of p = next_id db" by (simp add: i)
    from caps_published [OF f sl this d [unfolded i]] show ?thesis .
  next
    case err
    have st: "status p = lit ''error''" using err(2) by simp
    from collect_body_Inl [OF err(1)]
    consider (same) "db' = db"
      | (store) hits words where "fetch_hits reply = Inr hits"
          "store_counts fault clock hits (Counter words) db = (Inl e, db')"
      by blast
    then show ?thesis
    proof cases
      case same
      then have "snapshots db' = snapshots db" "word_velocity db' = word_velocity db"
        by simp_all
      from caps_unchanged [OF this st] show ?thesis .
    next
      case store
      from store_counts_Inl [OF store(2)]
      consider (unchanged) "snapshots db' = snapshots db" "word_velocity db' = word_velocity db"
        | (closing) raw where "slice5 hits = Inr raw"
          "db' = \<lparr>snapshots = snapshots db @
               [\<lparr>snap_id = next_id db, source = lit ''HackerNews'', raw_data = raw, captured_at = clock\<rparr>],
             word_velocity = word_velocity db @
               map (\<lambda>(w, c). \<lparr>word = w, count = c, snapshot_id = next_id db, observed_at = clock\<rparr>)
                 (most_common 50 (Counter words)),
             next_id = Suc (next_id db)\<rparr>"
        by blast
      then show ?thesis
      proof cases
        case unchanged
        from caps_unchanged [OF unchanged st] show ?thesis .
      next
        case closing
        have "status p = lit ''success'' \<longrightarrow> snapshot_id_of p = next_id db" by (simp add: st)
        from caps_published [OF store(1) closing(1) this closing(2)] show ?thesis .
      qed
    qed
  qed
qed

text \<open>
  The run on the front page of two stories.
\<close>

theorem collect_caps_witness:
  "collect unicode_excerpt (simple_words unicode_excerpt) No_fault 1000 (Reply 200 (Some front_page)) empty_store =
     ((Success 1 [(lit ''database'', 1), (lit ''engine'', 1), (lit ''rust'', 1), (lit ''hard'', 1)], 200),
      stored_front_page) \<and>
   (\<exists>ss rows. snapshots stored_front_page = snapshots empty_store @ ss \<and> length ss = 1 \<and>
      json_len (raw_data (hd ss)) \<le> 5 \<and>
      word_velocity stored_front_page = word_velocity empty_store @ rows \<and> length rows \<le> 50)"
proof -
  from collect_caps [OF run_front_page] obtain ss rows where
    a: "snapshots stored_front_page = snapshots empty_store @ ss" and
    b: "\<forall>s\<in>set ss. snap_id s = next_id empty_store \<and> json_len (raw_data s) \<le> 5 \<and>
          (\<exists>hits. fetch_hits (Reply 200 (Some front_page)) = Inr hits \<and>
             slice5 hits = Inr (raw_data s))" and
    c: "word_velocity stored_front_page = word_velocity empty_store @ rows" and
    d: "length rows \<le> 50" and
    e: "status (Success 1 [(lit ''database'', 1), (lit ''engine'', 1), (lit ''rust'', 1), (lit ''hard'', 1)])
          = lit ''success'' \<longrightarrow> length ss = 1"
    by blast
  from e have l: "length ss = 1" by simp
  then have "hd ss \<in> set ss" by (cases ss) simp_all
  with b have "json_len (raw_data (hd ss)) \<le> 5" by blast
  with a c d l run_front_page show ?thesis by blast
qed

subsection \<open>The answer of \<open>collect\<close>\<close>

text \<open>
  C9. Either the body of \<open>collect\<close> returns, and the answer has status
  \<open>success\<close>, the identifier the store generated for the snapshot, and the five most
  common words; or the body raises, and the handler turns the exception into an answer
  with status \<open>error\<close>, its message and HTTP status 500. No third outcome exists.
\<close>

theorem collect_response:
  "(\<exists>p db'. collect_body ucd tokenize fault clock reply db = (Inr p, db') \<and>
       collect ucd tokenize fault clock reply db = ((p, 200), db') \<and>
       status p = lit ''success'' \<and> snapshot_id_of p = next_id db \<and>
       (\<exists>s. s \<in> set (snapshots db') \<and> snap_id s = snapshot_id_of p) \<and>
       (\<exists>hits words. fetch_hits reply = Inr hits \<and> title_words ucd tokenize hits = Inr words \<and>
          top_words_of p = most_common 5 (Counter words))) \<or>
   (\<exists>e db'. collect_body ucd tokenize fault clock reply db = (Inl e, db') \<and>
       collect ucd tokenize fault clock reply db = ((Error e, 500), db') \<and>
       status (Error e) = lit ''error'' \<and> message (Error e) = e)"
proof -
  from collect_cases [of ucd tokenize fault clock reply db]
  show ?thesis
  proof (elim disjE exE conjE)
    fix p db'
    assume ok: "collect_body ucd tokenize fault clock reply db = (Inr p, db')"
      and c: "collect ucd tokenize fault clock reply db = ((p, 200), db')"
    from collect_body_Inr [OF ok] obtain hits words where
      f: "fetch_hits reply = Inr hits" and t: "title_words ucd tokenize hits = Inr words" and
      s: "store_counts fault clock hits (Counter words) db = (Inr (snapshot_id_of p), db')" and
      p: "p = Success (snapshot_id_of p) (most_common 5 (Counter words))"
      by blast
    from store_counts_Inr [OF s] obtain raw where
      i: "snapshot_id_of p = next_id db" and
      d: "db' = \<lparr>snapshots = snapshots db @
               [\<lparr>snap_id = snapshot_id_of p, source = lit ''HackerNews'', raw_data = raw,
                 captured_at = clock\<rparr>],
             word_velocity = word_velocity db @
               map (\<lambda>(w, c). \<lparr>word = w, count = c, snapshot_id = snapshot_id_of p,
                     observed_at = clock\<rparr>)
                 (most_common 50 (Counter words)),
             next_id = Suc (next_id db)\<rparr>"
      by blast
    have st: "status p = lit ''success''" by (subst p) simp
    have tw: "top_words_of p = most_common 5 (Counter words)" by (subst p) simp
    have sn: "\<exists>s. s \<in> set (snapshots db') \<and> snap_id s = snapshot_id_of p"
      by (rule exI [of _ "\<lparr>snap_id = snapshot_id_of p, source = lit ''HackerNews'', raw_data = raw,
                 captured_at = clock\<rparr>"]) (simp add: d)
    from ok c st i sn f t tw show ?thesis by blast
  next
    fix e db'
    assume "collect_body ucd tokenize fault clock reply db = (Inl e, db')"
      and "collect ucd tokenize fault clock reply db = ((Error e, 500), db')"
    then show ?thesis by simp
  qed
qed

text \<open>
  The answer of the run on the front page of two stories.
\<close>

theorem collect_response_witness:
  "collect unicode_excerpt (simple_words unicode_excerpt) No_fault 1000 (Reply 200 (Some front_page)) empty_store =
     ((Success 1 [(lit ''database'', 1), (lit ''engine'', 1), (lit ''rust'', 1), (lit ''hard'', 1)], 200),
      stored_front_page) \<and>
   collect_body unicode_excerpt (simple_words unicode_excerpt) No_fault 1000 (Reply 200 (Some front_page)) empty_store =
     (Inr (Success 1 [(lit ''database'', 1), (lit ''engine'', 1), (lit ''rust'', 1), (lit ''hard'', 1)]),
      stored_front_page)"
  using collect_response [of unicode_excerpt "simple_words unicode_excerpt" No_fault 1000 "Reply 200 (Some front_page)" empty_store]
    run_front_page
  by auto

text \<open>
  C10. In a successful run the summary of the answer is the first five of the rows the
  run stored, in their order, or all of them when they are fewer.
\<close>

theorem collect_summary_prefix:
  assumes "collect ucd tokenize fault clock reply db = ((Success sid summary, code), db')"
  shows "\<exists>rows. word_velocity db' = word_velocity db @ rows \<and>
           (\<forall>r\<in>set rows. snapshot_id r = sid) \<and>
           summary = take 5 (map (\<lambda>r. (word r, count r)) rows) \<and>
           length summary = min 5 (length rows)"
proof -
  from collect_cases [of ucd tokenize fault clock reply db] assms
  have ok: "collect_body ucd tokenize fault clock reply db = (Inr (Success sid summary), db')"
    by auto
  from collect_body_Inr [OF ok] obtain hits words where
    s: "store_counts fault clock hits (Counter words) db = (Inr sid, db')" and
    p: "summary = most_common 5 (Counter words)"
    by auto
  let ?rows = "map (\<lambda>(w, c). \<lparr>word = w, count = c, snapshot_id = sid, observed_at = clock\<rparr>)
                 (most_common 50 (Counter words))"
  from store_counts_Inr [OF s] have d: "word_velocity db' = word_velocity db @ ?rows"
    by auto
  have m: "map (\<lambda>r. (word r, count r)) ?rows = most_common 50 (Counter words)"
    by (simp add: comp_def case_prod_unfold)
  have t: "summary = take 5 (most_common 50 (Counter words))"
    using p by (simp add: most_common_def min_def)
  have a: "\<forall>r\<in>set ?rows. snapshot_id r = sid" by auto
  have l: "length summary = min 5 (length ?rows)" using t by simp
  show ?thesis
    by (rule exI [of _ ?rows]) (use d m t a l in simp)
qed

text \<open>
  The summary of the run on the front page of two stories.
\<close>

theorem collect_summary_prefix_witness:
  "collect unicode_excerpt (simple_words unicode_excerpt) No_fault 1000 (Reply 200 (Some front_page)) empty_store =
     ((Success 1 [(lit ''database'', 1), (lit ''engine'', 1), (lit ''rust'', 1), (lit ''hard'', 1)], 200),
      stored_front_page) \<and>
   [(lit ''database'', 1), (lit ''engine'', 1), (lit ''rust'', 1), (lit ''hard'', 1)] =
     take 5 (map (\<lambda>r. (word r, count r)) (word_velocity stored_front_page))"
proof -
  from collect_summary_prefix [OF run_front_page] obtain rows where
    a: "word_velocity stored_front_page = word_velocity empty_store @ rows" and
    b: "[(lit ''database'', 1), (lit ''engine'', 1), (lit ''rust'', 1), (lit ''hard'', 1)] =
          take 5 (map (\<lambda>r. (word r, count r)) rows)"
    by blast
  have "word_velocity empty_store = []" by (simp add: empty_store_def)
  with a have "rows = word_velocity stored_front_page" by simp
  with b run_front_page show ?thesis by simp
qed

subsection \<open>Trend query\<close>

text \<open>
  C7, as the code has it. The query of \<open>dashboard\<close> takes the rows stamped strictly
  later than 24 hours before \<open>now\<close>, with no upper bound, sums the counts of each word,
  sorts by total, largest first, and keeps the first 10: the result is sorted, has one
  entry per word, \<open>min 10 d\<close> entries for \<open>d\<close> distinct words selected, every entry is a
  selected word with the sum of its selected counts, and no word left out has a larger
  total than a word kept. \<open>dashboard\<close> hands the words and the totals to the template.
\<close>

theorem trend_query_window:
  "sorted_wrt (\<lambda>a b. snd b \<le> snd a) (trend_query now rows) \<and>
   distinct (map fst (trend_query now rows)) \<and>
   length (trend_query now rows) =
     min 10 (card (word ` {r \<in> set rows. now - 24 * 60 * 60 * 1000000 < observed_at r})) \<and>
   (\<forall>(w, t)\<in>set (trend_query now rows).
      (\<exists>r\<in>set rows. now - 24 * 60 * 60 * 1000000 < observed_at r \<and> word r = w) \<and>
      t = sum_list (map count
            (filter (\<lambda>r. now - 24 * 60 * 60 * 1000000 < observed_at r \<and> word r = w) rows))) \<and>
   (\<forall>r\<in>set rows. now - 24 * 60 * 60 * 1000000 < observed_at r \<longrightarrow>
      word r \<notin> fst ` set (trend_query now rows) \<longrightarrow>
      (\<forall>(v, t)\<in>set (trend_query now rows).
         sum_list (map count
           (filter (\<lambda>q. now - 24 * 60 * 60 * 1000000 < observed_at q \<and> word q = word r) rows))
         \<le> t)) \<and>
   dashboard No_fault now db =
     Inr (map fst (trend_query now (word_velocity db)), map snd (trend_query now (word_velocity db)))"
proof -
  let ?sel = "filter (\<lambda>r. observed_at r > now - interval_24_hours) rows"
  let ?pairs = "map (\<lambda>r. (word r, count r)) ?sel"
  let ?T = "tally [] ?pairs"
  let ?L = "sorted_reverse snd ?T"
  have w: "now - interval_24_hours = now - 24 * 60 * 60 * 1000000"
    by (simp add: interval_24_hours_def)
  have q: "trend_query now rows = take 10 ?L"
    by (simp add: trend_query_def Let_def)
  have total: "sum_list (map snd (filter (\<lambda>p. fst p = w) ?pairs)) =
      sum_list (map count (filter (\<lambda>r. now - 24 * 60 * 60 * 1000000 < observed_at r \<and> word r = w) rows))"
    for w
    by (simp add: filter_map comp_def w conj_commute)
  have keys: "fst ` set ?pairs = word ` {r \<in> set rows. now - 24 * 60 * 60 * 1000000 < observed_at r}"
    by (auto simp: w image_iff)
  have entry: "(v, t) \<in> set ?L \<longleftrightarrow>
      v \<in> word ` {r \<in> set rows. now - 24 * 60 * 60 * 1000000 < observed_at r} \<and>
      t = sum_list (map count (filter (\<lambda>r. now - 24 * 60 * 60 * 1000000 < observed_at r \<and> word r = v) rows))"
    for v t
    by (simp only: set_sorted_reverse tally_entry total keys)
  have s: "sorted_wrt (\<lambda>a b. snd b \<le> snd a) ?L" by (rule sorted_reverse_desc)
  have c1: "sorted_wrt (\<lambda>a b. snd b \<le> snd a) (trend_query now rows)"
    unfolding q by (rule sorted_wrt_take_desc [OF s])
  have "distinct (map fst ?L)"
    by (simp only: distinct_sorted_reverse) (simp add: distinct_tally)
  then have c2: "distinct (map fst (trend_query now rows))"
    unfolding q by (simp add: take_map [symmetric] distinct_take del: take_map)
  have c3: "length (trend_query now rows) =
     min 10 (card (word ` {r \<in> set rows. now - 24 * 60 * 60 * 1000000 < observed_at r}))"
  proof -
    have "length ?T = card (fst ` set ?pairs)" by (rule length_tally)
    then have "length ?L =
        card (word ` {r \<in> set rows. now - 24 * 60 * 60 * 1000000 < observed_at r})"
      by (simp only: length_sorted_reverse keys)
    then show ?thesis unfolding q by (simp only: length_take min.commute)
  qed
  have c4: "\<forall>(v, t)\<in>set (trend_query now rows).
      (\<exists>r\<in>set rows. now - 24 * 60 * 60 * 1000000 < observed_at r \<and> word r = v) \<and>
      t = sum_list (map count
            (filter (\<lambda>r. now - 24 * 60 * 60 * 1000000 < observed_at r \<and> word r = v) rows))"
  proof (clarify)
    fix v t assume "(v, t) \<in> set (trend_query now rows)"
    then have "(v, t) \<in> set ?L" unfolding q by (rule in_set_takeD)
    then show "(\<exists>r\<in>set rows. now - 24 * 60 * 60 * 1000000 < observed_at r \<and> word r = v) \<and>
      t = sum_list (map count
            (filter (\<lambda>r. now - 24 * 60 * 60 * 1000000 < observed_at r \<and> word r = v) rows))"
      unfolding entry by auto
  qed
  have c5: "\<forall>r\<in>set rows. now - 24 * 60 * 60 * 1000000 < observed_at r \<longrightarrow>
      word r \<notin> fst ` set (trend_query now rows) \<longrightarrow>
      (\<forall>(v, t)\<in>set (trend_query now rows).
         sum_list (map count
           (filter (\<lambda>q. now - 24 * 60 * 60 * 1000000 < observed_at q \<and> word q = word r) rows))
         \<le> t)"
  proof (intro ballI impI, clarify)
    fix r v t
    assume r: "r \<in> set rows" "now - 24 * 60 * 60 * 1000000 < observed_at r"
      and out: "word r \<notin> fst ` set (trend_query now rows)"
      and vt: "(v, t) \<in> set (trend_query now rows)"
    let ?tw = "sum_list (map count
           (filter (\<lambda>q. now - 24 * 60 * 60 * 1000000 < observed_at q \<and> word q = word r) rows))"
    have "(word r, ?tw) \<in> set ?L" unfolding entry using r by auto
    moreover have "(word r, ?tw) \<notin> set (take 10 ?L)"
      using out unfolding q by force
    moreover have "(v, t) \<in> set (take 10 ?L)" using vt unfolding q .
    ultimately have "snd (word r, ?tw) \<le> snd (v, t)"
      using take_dominates [OF s, of "(v, t)" 10 "(word r, ?tw)"] by blast
    then show "?tw \<le> t" by simp
  qed
  have c6: "dashboard No_fault now db =
     Inr (map fst (trend_query now (word_velocity db)), map snd (trend_query now (word_velocity db)))"
    by (simp add: dashboard_def get_db_connection_def execute_select_def close_def)
  from c1 c2 c3 c4 c5 c6 show ?thesis by (intro conjI)
qed

text \<open>
  Of a row stamped exactly 24 hours before and two rows stamped now, the two are
  summed.
\<close>

theorem trend_query_window_witness:
  "trend_query 86400000000 [day_old_row, fresh_row, fresh_row] = [(lit ''engine'', 4)] \<and>
   length (trend_query 86400000000 [day_old_row, fresh_row, fresh_row]) = 1 \<and>
   dashboard No_fault 86400000000
     \<lparr>snapshots = [], word_velocity = [day_old_row, fresh_row, fresh_row], next_id = 3\<rparr>
   = Inr ([lit ''engine''], [4])"
proof -
  have e: "trend_query 86400000000 [day_old_row, fresh_row, fresh_row] = [(lit ''engine'', 4)]"
    by code_simp
  from trend_query_window [of 86400000000 "[day_old_row, fresh_row, fresh_row]"
      "\<lparr>snapshots = [], word_velocity = [day_old_row, fresh_row, fresh_row], next_id = 3\<rparr>"]
  have "dashboard No_fault 86400000000
     \<lparr>snapshots = [], word_velocity = [day_old_row, fresh_row, fresh_row], next_id = 3\<rparr>
   = Inr (map fst (trend_query 86400000000 [day_old_row, fresh_row, fresh_row]),
          map snd (trend_query 86400000000 [day_old_row, fresh_row, fresh_row]))"
    by simp
  then show ?thesis unfolding e by simp
qed

text \<open>
  C7 as stated fails at both ends of the window \<open>[now - 24h, now)\<close>: the row stamped
  exactly 24 hours before \<open>now\<close> is in that window and not selected by the query, the
  row stamped \<open>now\<close> is selected and not in that window.
\<close>

theorem trend_query_window_counterexample:
  "trend_query 86400000000 [day_old_row] = [] \<and>
   spec_topWords interval_24_hours 10 86400000000 [day_old_row] = [(lit ''rust'', 3)] \<and>
   trend_query 86400000000 [fresh_row] = [(lit ''engine'', 2)] \<and>
   spec_topWords interval_24_hours 10 86400000000 [fresh_row] = []"
  by code_simp

text \<open>
  C8, as the code has it. When the store can be reached and no row of \<open>word_velocity\<close>
  is stamped later than 24 hours before \<open>now\<close>, which is the window of the query
  itself, \<open>dashboard\<close> returns, with no label and no datum. The empty store is such a
  store.
\<close>

theorem dashboard_empty_window:
  assumes "fault = No_fault"
    and "\<forall>r\<in>set (word_velocity db). \<not> now - interval_24_hours < observed_at r"
  shows "dashboard fault now db = Inr ([], [])"
proof -
  have "filter (\<lambda>r. now - interval_24_hours < observed_at r) (word_velocity db) = []"
    using assms(2) by (simp add: filter_empty_conv)
  then have "trend_query now (word_velocity db) = []"
    by (simp add: trend_query_def sorted_reverse_def)
  then show ?thesis
    using assms(1)
    by (simp add: dashboard_def get_db_connection_def execute_select_def close_def)
qed

text \<open>
  The empty store, and a store whose only row is 24 hours old.
\<close>

theorem dashboard_empty_window_witness:
  "dashboard No_fault 86400000000 \<lparr>snapshots = [], word_velocity = [], next_id = 1\<rparr> = Inr ([], []) \<and>
   dashboard No_fault 86400000000
     \<lparr>snapshots = [], word_velocity = [day_old_row], next_id = 2\<rparr> = Inr ([], [])"
proof -
  have a: "\<forall>r\<in>set (word_velocity \<lparr>snapshots = [], word_velocity = [], next_id = 1\<rparr>).
      \<not> 86400000000 - interval_24_hours < observed_at r"
    by simp
  have b: "\<forall>r\<in>set (word_velocity \<lparr>snapshots = [], word_velocity = [day_old_row], next_id = 2\<rparr>).
      \<not> 86400000000 - interval_24_hours < observed_at r"
    by (simp add: day_old_row_def interval_24_hours_def)
  from dashboard_empty_window [OF refl a] dashboard_empty_window [OF refl b]
  show ?thesis by simp
qed

text \<open>
  C8 as stated fails for the window \<open>[now - 24h, now)\<close> of the specification: a store
  whose only row is stamped \<open>now\<close> has no row in that window, and \<open>dashboard\<close>
  returns that row's word and count.
\<close>

theorem dashboard_empty_window_counterexample:
  "filter (\<lambda>r. 86400000000 - interval_24_hours \<le> observed_at r \<and> observed_at r < 86400000000)
     [fresh_row] = [] \<and>
   dashboard No_fault 86400000000
     \<lparr>snapshots = [], word_velocity = [fresh_row], next_id = 3\<rparr>
   = Inr ([lit ''engine''], [2])"
  by code_simp

end
